theory Spec2Isabelle
  imports Complex_Main "HOL-Library.AList" "HOL-Library.Log_Nat"
begin

section \<open>MobileNetV2 model definition (tutorials/Quantization/models/mobilenetv2.py)\<close>

text \<open>
  The module defines a channel rounder \<open>_make_divisible\<close>, the layer containers
  \<open>ConvBnReLU\<close> and \<open>InvertedResidual\<close>, and the network \<open>MobileNetV2\<close>.
  Python integers are \<^typ>\<open>int\<close>. A Python float is an IEEE 754 double: a finite
  double is the rational it denotes, and every float operation rounds its exact result
  to the nearest double, ties to even. Every \<open>raise\<close>, failed \<open>assert\<close> and failed
  attribute or sequence access is a value \<open>Inl e\<close> of the result type.
\<close>

subsection \<open>Exceptions\<close>

datatype value_error =
    SettingMessage "int list list"   \<comment> \<open>the \<open>raise ValueError\<close> of \<open>MobileNetV2.__init__\<close>, naming the setting\<close>
  | UnpackMessage nat                \<comment> \<open>\<open>for t, c, n, s in ...\<close> on an entry with that many fields\<close>

datatype error =
    ZeroDivisionError
  | OverflowError
  | AssertionError
  | AttributeError string
  | TypeError
  | ValueError value_error

subsection \<open>Floats\<close>

text \<open>
  Doubles have a significand of 53 bits and binary exponents from \<open>-1022\<close> to \<open>1023\<close>,
  with gradual underflow below. The sign of zero is not kept, and NaN is left out: no
  operation of this module produces it from the values modelled here.
\<close>

datatype double = Finite rat | PosInf | NegInf

definition floor_log2 :: "rat \<Rightarrow> int" where
  \<comment> \<open>for \<open>q > 0\<close>, the exponent \<open>e\<close> with \<open>2 ^ e \<le> q < 2 ^ (e + 1)\<close>\<close>
  "floor_log2 q =
     (let (a, b) = quotient_of q; e = bitlen a - bitlen b
      in if power_int 2 e \<le> q then e else e - 1)"

definition round_half_even :: "rat \<Rightarrow> int" where
  "round_half_even x =
     (let f = \<lfloor>x\<rfloor>; r = x - of_int f
      in if r < 1 / 2 then f else if 1 / 2 < r then f + 1 else if even f then f else f + 1)"

definition round_double :: "rat \<Rightarrow> double" where
  \<comment> \<open>the double nearest to \<open>q\<close>: \<open>u\<close> is the spacing of the doubles around \<open>q\<close>, and a
      result of magnitude \<open>2 ^ 1024\<close> or more is an infinity\<close>
  "round_double q =
     (if q = 0 then Finite 0
      else
        let e = floor_log2 \<bar>q\<bar>;
            u = power_int 2 (max e (- 1022) - 52);
            n = round_half_even (q / u)
        in if 1023 < e then (if 0 < q then PosInf else NegInf)
           else if e = 1023 \<and> \<bar>n\<bar> = 2 ^ 53 then (if 0 < q then PosInf else NegInf)
           else Finite (of_int n * u))"

definition float_of_int :: "int \<Rightarrow> error + rat" where
  \<comment> \<open>the conversion of an integer operand in mixed arithmetic; it raises when the
      integer is too large for a double\<close>
  "float_of_int i =
     (case round_double (of_int i) of Finite r \<Rightarrow> Inr r | _ \<Rightarrow> Inl OverflowError)"

definition true_div :: "int \<Rightarrow> int \<Rightarrow> error + rat" where
  \<comment> \<open>\<open>a / b\<close> on integers: the correctly rounded quotient\<close>
  "true_div a b =
     (if b = 0 then Inl ZeroDivisionError
      else case round_double (of_int a / of_int b) of
             Finite r \<Rightarrow> Inr r
           | _ \<Rightarrow> Inl OverflowError)"

definition int_times_float :: "int \<Rightarrow> rat \<Rightarrow> error + double" where
  \<comment> \<open>\<open>i * x\<close> for an integer \<open>i\<close> and a finite float \<open>x\<close>\<close>
  "int_times_float i x =
     (case float_of_int i of Inl e \<Rightarrow> Inl e | Inr fi \<Rightarrow> Inr (round_double (fi * x)))"

datatype number = PyInt int | PyFloat double

definition as_double :: "number \<Rightarrow> error + double" where
  "as_double v = (case v of PyInt i \<Rightarrow> map_sum id Finite (float_of_int i) | PyFloat x \<Rightarrow> Inr x)"

fun float_add :: "double \<Rightarrow> rat \<Rightarrow> double" where
  \<comment> \<open>\<open>x + y\<close> for a float \<open>x\<close> and a finite float \<open>y\<close>\<close>
  "float_add (Finite a) b = round_double (a + b)"
| "float_add PosInf b = PosInf"
| "float_add NegInf b = NegInf"

definition float_0_9 :: rat where
  \<comment> \<open>the literal \<open>0.9\<close>: the double nearest to 9/10\<close>
  "float_0_9 = 8106479329266893 / 2 ^ 53"

fun times_0_9 :: "double \<Rightarrow> double" where
  \<comment> \<open>\<open>0.9 * x\<close> for a float \<open>x\<close>\<close>
  "times_0_9 (Finite b) = round_double (float_0_9 * b)"
| "times_0_9 PosInf = PosInf"
| "times_0_9 NegInf = NegInf"

definition trunc_toward_zero :: "rat \<Rightarrow> int" where
  "trunc_toward_zero q = (if 0 \<le> q then \<lfloor>q\<rfloor> else \<lceil>q\<rceil>)"

fun py_int :: "double \<Rightarrow> error + int" where
  \<comment> \<open>\<open>int(x)\<close> on a float: truncation toward zero; an infinity raises\<close>
  "py_int (Finite q) = Inr (trunc_toward_zero q)"
| "py_int PosInf = Inl OverflowError"
| "py_int NegInf = Inl OverflowError"

fun int_less_float :: "int \<Rightarrow> double \<Rightarrow> bool" where
  \<comment> \<open>\<open>n < x\<close> for an integer and a float: Python compares the exact values\<close>
  "int_less_float n (Finite q) = (of_int n < q)"
| "int_less_float n PosInf = True"
| "int_less_float n NegInf = False"

subsection \<open>The channel rounder\<close>

definition make_divisible :: "number \<Rightarrow> int \<Rightarrow> int option \<Rightarrow> error + int" where
  \<comment> \<open>\<open>_make_divisible(v, divisor, min_value=None)\<close>, \<open>v\<close> an integer or a float;
      the float expression \<open>v + divisor / 2\<close> is evaluated before \<open>// divisor\<close>.\<close>
  "make_divisible v divisor min_value_arg =
     (let min_value = (case min_value_arg of None \<Rightarrow> divisor | Some m \<Rightarrow> m)
      in case true_div divisor 2 of
           Inl e \<Rightarrow> Inl e
         | Inr half \<Rightarrow>
             (case as_double v of
                Inl e \<Rightarrow> Inl e
              | Inr fv \<Rightarrow>
                  (case py_int (float_add fv half) of
                     Inl e \<Rightarrow> Inl e
                   | Inr i \<Rightarrow>
                       if divisor = 0 then Inl ZeroDivisionError
                       else
                         let new_v = max min_value (i div divisor * divisor);
                             new_v = (if int_less_float new_v (times_0_9 fv)
                                      then new_v + divisor else new_v)
                         in Inr new_v)))"

subsection \<open>Modules and instances\<close>

text \<open>
  The layers are the framework's; the model keeps their constructor arguments. A module
  instance under construction is its plain attribute dictionary and its table of
  submodules, as \<open>nn.Module.__init__\<close> sets them up: reading an attribute that is in
  neither raises \<open>AttributeError\<close>. The framework's own argument checks inside
  \<open>nn.Conv2d\<close>, \<open>nn.BatchNorm2d\<close> and \<open>nn.Linear\<close> are not modelled, and neither are the
  weights and their initialisation.
\<close>

datatype pyval = PBool bool | PInt int

datatype module =
    Conv2d int int int int int int bool
      \<comment> \<open>in channels, out channels, kernel size, stride, padding, groups, bias\<close>
  | BatchNorm2d int rat           \<comment> \<open>features, momentum\<close>
  | ReLU bool                     \<comment> \<open>inplace\<close>
  | Dropout rat
  | Linear int int
  | FloatFunctional
  | QuantStub
  | DeQuantStub
  | Sequential "module list"
  | ConvBnReLU "module list"      \<comment> \<open>the \<open>nn.Sequential\<close> subclass\<close>
  | InvertedResidual "(string \<times> pyval) list" "(string \<times> module) list"

type_synonym module_instance = "(string \<times> pyval) list \<times> (string \<times> module) list"

definition Module_init :: module_instance where
  \<comment> \<open>\<open>super().__init__()\<close>: a fresh module has the flag \<open>training\<close> and no submodule;
      the framework's private tables are left out, none of them is named \<open>stride\<close>.\<close>
  "Module_init = ([(''training'', PBool True)], [])"

definition getattr :: "module_instance \<Rightarrow> string \<Rightarrow> error + (pyval + module)" where
  "getattr self name =
     (case map_of (fst self) name of
        Some v \<Rightarrow> Inr (Inl v)
      | None \<Rightarrow>
          (case map_of (snd self) name of
             Some m \<Rightarrow> Inr (Inr m)
           | None \<Rightarrow> Inl (AttributeError name)))"

definition setattr_value :: "module_instance \<Rightarrow> string \<Rightarrow> pyval \<Rightarrow> module_instance" where
  "setattr_value self name v = (AList.update name v (fst self), snd self)"

definition setattr_module :: "module_instance \<Rightarrow> string \<Rightarrow> module \<Rightarrow> module_instance" where
  "setattr_module self name m = (fst self, AList.update name m (snd self))"

fun eq_int :: "pyval + module \<Rightarrow> int \<Rightarrow> bool" where
  \<comment> \<open>\<open>a == n\<close> for an attribute value \<open>a\<close> and an integer \<open>n\<close>; \<open>True == 1\<close> holds in Python.\<close>
  "eq_int (Inl (PInt i)) n = (i = n)"
| "eq_int (Inl (PBool b)) n = ((if b then 1 else 0) = n)"
| "eq_int (Inr m) n = False"

subsection \<open>ConvBnReLU\<close>

definition ConvBnReLU_init :: "int \<Rightarrow> int \<Rightarrow> int \<Rightarrow> int \<Rightarrow> int \<Rightarrow> module" where
  \<comment> \<open>arguments: \<open>in_planes\<close>, \<open>out_planes\<close>, \<open>kernel_size\<close>, \<open>stride\<close>, \<open>groups\<close>\<close>
  "ConvBnReLU_init in_planes out_planes kernel_size stride groups =
     (let padding = (kernel_size - 1) div 2
      in ConvBnReLU
           [Conv2d in_planes out_planes kernel_size stride padding groups False,
            BatchNorm2d out_planes (1 / 10),
            ReLU False])"

subsection \<open>InvertedResidual\<close>

definition InvertedResidual_init :: "int \<Rightarrow> int \<Rightarrow> int \<Rightarrow> int \<Rightarrow> error + module" where
  \<comment> \<open>\<open>expand_ratio\<close> is an integer of the schedule, so \<open>int(round(in_planes * expand_ratio))\<close>
      is the product itself.\<close>
  "InvertedResidual_init in_planes out_planes stride expand_ratio =
     (let self = Module_init
      in if stride \<notin> set [1, 2] then Inl AssertionError
         else
           let hidden_dim = in_planes * expand_ratio
           in case getattr self ''stride'' of
                Inl e \<Rightarrow> Inl e
              | Inr self_stride \<Rightarrow>
                  let use_res_connect = (eq_int self_stride 1 \<and> in_planes = out_planes);
                      self = setattr_value self ''use_res_connect'' (PBool use_res_connect);
                      layers = [];
                      layers = (if expand_ratio \<noteq> 1
                                then layers @ [ConvBnReLU_init in_planes hidden_dim 1 1 1]
                                else layers);
                      layers = layers @
                        [ConvBnReLU_init hidden_dim hidden_dim 3 stride hidden_dim,
                         Conv2d hidden_dim out_planes 1 1 0 1 False,
                         BatchNorm2d out_planes (1 / 10)];
                      self = setattr_module self ''conv'' (Sequential layers);
                      self = setattr_module self ''skip_add'' FloatFunctional
                  in Inr (InvertedResidual (fst self) (snd self)))"

text \<open>
  Tensors and the execution of the framework's layers are parameters: \<open>call m x\<close> applies
  the module \<open>m\<close> to \<open>x\<close>, \<open>tensor_add\<close> is \<open>FloatFunctional.add\<close> and \<open>tensor_mean\<close> is
  \<open>Tensor.mean\<close>.
\<close>

record 't framework =
  call :: "module \<Rightarrow> 't \<Rightarrow> 't"
  tensor_add :: "'t \<Rightarrow> 't \<Rightarrow> 't"
  tensor_mean :: "int list \<Rightarrow> 't \<Rightarrow> 't"

fun truthy :: "pyval + module \<Rightarrow> bool" where
  \<comment> \<open>the truth value of an attribute in \<open>if\<close>: a container module is false when empty\<close>
  "truthy (Inl (PBool b)) = b"
| "truthy (Inl (PInt i)) = (i \<noteq> 0)"
| "truthy (Inr (Sequential ms)) = (ms \<noteq> [])"
| "truthy (Inr (ConvBnReLU ms)) = (ms \<noteq> [])"
| "truthy (Inr m) = True"

definition call_attr :: "'t framework \<Rightarrow> pyval + module \<Rightarrow> 't \<Rightarrow> error + 't" where
  \<comment> \<open>calling an attribute value: only a module is callable\<close>
  "call_attr F a x = (case a of Inr m \<Rightarrow> Inr (call F m x) | Inl v \<Rightarrow> Inl TypeError)"

definition InvertedResidual_forward :: "'t framework \<Rightarrow> module_instance \<Rightarrow> 't \<Rightarrow> error + 't" where
  \<comment> \<open>\<open>self.skip_add.add\<close> is looked up before its arguments are evaluated; only
      \<open>FloatFunctional\<close> has the method \<open>add\<close>.\<close>
  "InvertedResidual_forward F self x =
     (case getattr self ''use_res_connect'' of
        Inl e \<Rightarrow> Inl e
      | Inr use_res_connect \<Rightarrow>
          if truthy use_res_connect
          then
            (case getattr self ''skip_add'' of
               Inl e \<Rightarrow> Inl e
             | Inr skip_add \<Rightarrow>
                 if skip_add \<noteq> Inr FloatFunctional then Inl (AttributeError ''add'')
                 else
                   (case getattr self ''conv'' of
                      Inl e \<Rightarrow> Inl e
                    | Inr conv \<Rightarrow>
                        (case call_attr F conv x of
                           Inl e \<Rightarrow> Inl e
                         | Inr y \<Rightarrow> Inr (tensor_add F x y))))
          else
            (case getattr self ''conv'' of
               Inl e \<Rightarrow> Inl e
             | Inr conv \<Rightarrow> call_attr F conv x))"

subsection \<open>MobileNetV2\<close>

record mobilenet_v2 =
  last_channel :: int
  features :: module
  quant :: module
  dequant :: module
  classifier :: module

definition default_setting :: "int list list" where
  \<comment> \<open>rows \<open>t, c, n, s\<close>: expansion ratio, channels, iterations, stride\<close>
  "default_setting =
     [[1, 16, 1, 1],
      [6, 24, 2, 2],
      [6, 32, 3, 2],
      [6, 64, 4, 2],
      [6, 96, 3, 1],
      [6, 160, 3, 2],
      [6, 320, 1, 1]]"

fun repeat_blocks ::
  "int \<Rightarrow> int \<Rightarrow> int \<Rightarrow> nat list \<Rightarrow> module list \<times> int \<Rightarrow> error + module list \<times> int" where
  \<comment> \<open>the loop \<open>for i in range(n)\<close> over the local list \<open>features\<close> (here \<open>feature_list\<close>) and \<open>input_channel\<close>\<close>
  "repeat_blocks t output_channel s [] st = Inr st"
| "repeat_blocks t output_channel s (i # indices) (feature_list, input_channel) =
     (let stride = (if i = 0 then s else 1)
      in case InvertedResidual_init input_channel output_channel stride t of
           Inl e \<Rightarrow> Inl e
         | Inr b \<Rightarrow> repeat_blocks t output_channel s indices (feature_list @ [b], output_channel))"

fun stages ::
  "rat \<Rightarrow> int \<Rightarrow> int list list \<Rightarrow> module list \<times> int \<Rightarrow> error + module list \<times> int" where
  \<comment> \<open>the loop \<open>for t, c, n, s in inverted_residual_setting\<close>; \<open>range(n)\<close> is empty for \<open>n \<le> 0\<close>\<close>
  "stages width_mult round_nearest [] st = Inr st"
| "stages width_mult round_nearest (entry # rest) st =
     (case entry of
        [t, c, n, s] \<Rightarrow>
          (case int_times_float c width_mult of
             Inl e \<Rightarrow> Inl e
           | Inr v \<Rightarrow>
               (case make_divisible (PyFloat v) round_nearest None of
                  Inl e \<Rightarrow> Inl e
                | Inr output_channel \<Rightarrow>
                    (case repeat_blocks t output_channel s [0..<nat n] st of
                       Inl e \<Rightarrow> Inl e
                     | Inr st' \<Rightarrow> stages width_mult round_nearest rest st')))
      | _ \<Rightarrow> Inl (ValueError (UnpackMessage (length entry))))"

definition MobileNetV2_init ::
  "int \<Rightarrow> rat \<Rightarrow> int list list option \<Rightarrow> int \<Rightarrow> error + mobilenet_v2" where
  \<comment> \<open>arguments: \<open>num_classes\<close>, \<open>width_mult\<close> (the value of a finite float),
      \<open>inverted_residual_setting\<close>, \<open>round_nearest\<close>;
      \<open>inverted_residual_setting[0]\<close> is read only when the list is not empty.\<close>
  "MobileNetV2_init num_classes width_mult inverted_residual_setting round_nearest =
     (let input_channel = 32;
          last_channel = 1280;
          setting = (case inverted_residual_setting of None \<Rightarrow> default_setting | Some s \<Rightarrow> s)
      in if length setting = 0 \<or> length (setting ! 0) \<noteq> 4
         then Inl (ValueError (SettingMessage setting))
         else
           case int_times_float input_channel width_mult of
             Inl e \<Rightarrow> Inl e
           | Inr v \<Rightarrow>
           case make_divisible (PyFloat v) round_nearest None of
             Inl e \<Rightarrow> Inl e
           | Inr input_channel \<Rightarrow>
           case int_times_float last_channel (max 1 width_mult) of
             Inl e \<Rightarrow> Inl e
           | Inr v \<Rightarrow>
           case make_divisible (PyFloat v) round_nearest None of
             Inl e \<Rightarrow> Inl e
           | Inr self_last_channel \<Rightarrow>
           case stages width_mult round_nearest setting
                  ([ConvBnReLU_init 3 input_channel 3 2 1], input_channel) of
             Inl e \<Rightarrow> Inl e
           | Inr (feature_list, input_channel) \<Rightarrow>
               Inr \<lparr>last_channel = self_last_channel,
                    features = Sequential
                      (feature_list @ [ConvBnReLU_init input_channel self_last_channel 1 1 1]),
                    quant = QuantStub,
                    dequant = DeQuantStub,
                    classifier = Sequential
                      [Dropout (2 / 10), Linear self_last_channel num_classes]\<rparr>)"

text \<open>
  \<open>MobileNetV2.forward\<close> threads \<open>x\<close> through five steps. The model keeps a log of the
  steps with the tensor each one received.
\<close>

datatype step = Call module | Mean "int list"

definition apply_module ::
  "'t framework \<Rightarrow> module \<Rightarrow> 't \<times> (step \<times> 't) list \<Rightarrow> 't \<times> (step \<times> 't) list" where
  "apply_module F m st = (call F m (fst st), snd st @ [(Call m, fst st)])"

definition apply_mean ::
  "'t framework \<Rightarrow> int list \<Rightarrow> 't \<times> (step \<times> 't) list \<Rightarrow> 't \<times> (step \<times> 't) list" where
  "apply_mean F dims st = (tensor_mean F dims (fst st), snd st @ [(Mean dims, fst st)])"

definition MobileNetV2_forward ::
  "'t framework \<Rightarrow> mobilenet_v2 \<Rightarrow> 't \<Rightarrow> 't \<times> (step \<times> 't) list" where
  "MobileNetV2_forward F self x =
     (let st = (x, []);
          st = apply_module F (quant self) st;
          st = apply_module F (features self) st;
          st = apply_mean F [2, 3] st;
          st = apply_module F (classifier self) st;
          st = apply_module F (dequant self) st
      in st)"

definition inside_bracket :: "step list \<Rightarrow> step \<Rightarrow> bool" where
  \<comment> \<open>the step runs after the first \<open>QuantStub\<close> and before the next \<open>DeQuantStub\<close>\<close>
  "inside_bracket steps s =
     (s \<in> set (takeWhile (\<lambda>e. e \<noteq> Call DeQuantStub)
                 (drop 1 (dropWhile (\<lambda>e. e \<noteq> Call QuantStub) steps))))"

text \<open>
  A converted (quantized) model in the framework: \<open>QuantStub\<close> has become the
  quantizer and \<open>DeQuantStub\<close> the dequantizer, and every other operation keeps the
  numeric domain of its input. The tensor is reduced to its domain.
\<close>

datatype numeric_domain = RealValued | Quantized

definition converted_mode :: "numeric_domain framework" where
  "converted_mode =
     \<lparr>call = (\<lambda>m x. case m of QuantStub \<Rightarrow> Quantized | DeQuantStub \<Rightarrow> RealValued | _ \<Rightarrow> x),
      tensor_add = (\<lambda>x y. x),
      tensor_mean = (\<lambda>dims x. x)\<rparr>"

section \<open>Properties\<close>

subsection \<open>Rounding to a double\<close>

lemma floor_log2_le:
  assumes "0 < q"
  shows "power_int 2 (floor_log2 q) \<le> q"
proof -
  obtain a b where ab: "quotient_of q = (a, b)" by (cases "quotient_of q")
  then have b: "0 < b" by (rule quotient_of_denom_pos)
  from ab have q: "q = of_int a / of_int b" by (rule quotient_of_div)
  with assms b have a: "0 < a" by (simp add: zero_less_divide_iff)
  define p where "p = bitlen a"
  define r where "r = bitlen b"
  have p1: "1 \<le> p" using a by (simp add: p_def bitlen_alt_def)
  have r1: "1 \<le> r" using b by (simp add: r_def bitlen_alt_def)
  have la: "2 ^ nat (p - 1) \<le> a" using bitlen_bounds [OF a] by (simp add: p_def)
  have ub: "b < 2 ^ nat r" using bitlen_bounds [OF b] by (simp add: r_def)
  have "power_int 2 (p - r - 1) = (power_int 2 (p - 1) :: rat) / power_int 2 r"
    using power_int_diff [of "2::rat" "p - 1" r] by (simp add: algebra_simps)
  also have "\<dots> = (2 ^ nat (p - 1) :: rat) / 2 ^ nat r"
    using p1 r1 by (simp add: power_int_def)
  also have "\<dots> \<le> of_int a / of_int b"
  proof -
    have "(of_int (2 ^ nat (p - 1)) :: rat) \<le> of_int a" using la by (simp only: of_int_le_iff)
    then have 1: "(2 ^ nat (p - 1) :: rat) \<le> of_int a" by simp
    have "(of_int b :: rat) < of_int (2 ^ nat r)" using ub by (simp only: of_int_less_iff)
    then have 2: "(of_int b :: rat) \<le> 2 ^ nat r" by simp
    have 3: "(0::rat) < of_int b" using b by simp
    have 4: "(0::rat) \<le> 2 ^ nat (p - 1)" by simp
    from 1 2 3 4 show ?thesis by (intro frac_le) linarith+
  qed
  finally have low: "power_int 2 (p - r - 1) \<le> q" by (simp add: q)
  show ?thesis
    using low by (simp add: floor_log2_def ab p_def r_def Let_def)
qed

lemma floor_log2_gt:
  assumes "0 < q"
  shows "q < power_int 2 (floor_log2 q + 1)"
proof -
  obtain a b where ab: "quotient_of q = (a, b)" by (cases "quotient_of q")
  then have b: "0 < b" by (rule quotient_of_denom_pos)
  from ab have q: "q = of_int a / of_int b" by (rule quotient_of_div)
  with assms b have a: "0 < a" by (simp add: zero_less_divide_iff)
  define p where "p = bitlen a"
  define r where "r = bitlen b"
  have p1: "1 \<le> p" using a by (simp add: p_def bitlen_alt_def)
  have r1: "1 \<le> r" using b by (simp add: r_def bitlen_alt_def)
  have ua: "a < 2 ^ nat p" using bitlen_bounds [OF a] by (simp add: p_def)
  have lb: "2 ^ nat (r - 1) \<le> b" using bitlen_bounds [OF b] by (simp add: r_def)
  have "of_int a / of_int b < (2 ^ nat p :: rat) / 2 ^ nat (r - 1)"
  proof -
    have "(of_int a :: rat) < of_int (2 ^ nat p)" using ua by (simp only: of_int_less_iff)
    then have 1: "(of_int a :: rat) < 2 ^ nat p" by simp
    have "(of_int (2 ^ nat (r - 1)) :: rat) \<le> of_int b" using lb by (simp only: of_int_le_iff)
    then have 2: "(2 ^ nat (r - 1) :: rat) \<le> of_int b" by simp
    have 3: "(0::rat) < 2 ^ nat (r - 1)" by simp
    have 4: "(0::rat) \<le> of_int a" using a by simp
    from 1 2 3 4 show ?thesis by (intro frac_less) linarith+
  qed
  also have "\<dots> = (power_int 2 p :: rat) / power_int 2 (r - 1)"
    using p1 r1 by (simp add: power_int_def)
  also have "\<dots> = power_int 2 (p - r + 1)"
    using power_int_diff [of "2::rat" p "r - 1"] by (simp add: algebra_simps)
  finally have high: "q < power_int 2 (p - r + 1)" by (simp add: q)
  show ?thesis
    using high by (auto simp: floor_log2_def ab p_def r_def Let_def)
qed

lemma floor_log2_less:
  assumes "0 < q" "q < power_int 2 k"
  shows "floor_log2 q < k"
proof (rule ccontr)
  assume "\<not> floor_log2 q < k"
  then have "k \<le> floor_log2 q" by simp
  then have "power_int (2::rat) k \<le> power_int 2 (floor_log2 q)"
    by (rule power_int_increasing) simp
  with floor_log2_le [OF assms(1)] assms(2) show False by simp
qed

lemma floor_log2_ge:
  assumes "0 < q" "power_int 2 k \<le> q"
  shows "k \<le> floor_log2 q"
proof (rule ccontr)
  assume "\<not> k \<le> floor_log2 q"
  then have "floor_log2 q + 1 \<le> k" by simp
  then have "power_int (2::rat) (floor_log2 q + 1) \<le> power_int 2 k"
    by (rule power_int_increasing) simp
  with floor_log2_gt [OF assms(1)] assms(2) show False by simp
qed

lemma round_half_even_of_int [simp]: "round_half_even (of_int j) = j"
  by (simp add: round_half_even_def)

lemma round_half_even_error: "\<bar>of_int (round_half_even x) - x\<bar> \<le> 1 / 2"
  unfolding round_half_even_def Let_def by (auto simp: abs_if) linarith+

lemma round_double_exact:
  assumes "\<bar>m\<bar> < 2 ^ 53" "- 1074 \<le> s" "s \<le> 900"
  shows "round_double (of_int m * power_int 2 s) = Finite (of_int m * power_int 2 s)"
proof (cases "m = 0")
  case True
  then show ?thesis by (simp add: round_double_def)
next
  case False
  define q :: rat where "q = of_int m * power_int 2 s"
  have q0: "q \<noteq> 0" using False by (simp add: q_def)
  have absq: "\<bar>q\<bar> = of_int \<bar>m\<bar> * power_int 2 s" by (simp add: q_def abs_mult)
  have "(of_int \<bar>m\<bar> :: rat) < of_int (2 ^ 53)" using assms(1) by (simp only: of_int_less_iff)
  then have "(of_int \<bar>m\<bar> :: rat) < power_int 2 53" by simp
  then have "\<bar>q\<bar> < power_int 2 53 * power_int 2 s"
    unfolding absq by (rule mult_strict_right_mono) simp
  also have "\<dots> = power_int 2 (53 + s)" by (simp add: power_int_add)
  finally have "\<bar>q\<bar> < power_int 2 (53 + s)" .
  moreover have "0 < \<bar>q\<bar>" using q0 by simp
  ultimately have e: "floor_log2 \<bar>q\<bar> < 53 + s" by (rule floor_log2_less [rotated])
  define k where "k = max (floor_log2 \<bar>q\<bar>) (- 1022) - 52"
  have ks: "k \<le> s" using e assms(2) by (simp add: k_def)
  have "q / power_int 2 k = of_int m * power_int 2 (s - k)"
    by (simp add: q_def power_int_diff)
  also have "\<dots> = of_int (m * 2 ^ nat (s - k))" using ks by (simp add: power_int_def)
  finally have qk: "q / power_int 2 k = of_int (m * 2 ^ nat (s - k))" .
  have n: "round_half_even (q / power_int 2 k) = m * 2 ^ nat (s - k)"
    unfolding qk by (rule round_half_even_of_int)
  have restore: "(of_int (m * 2 ^ nat (s - k)) :: rat) * power_int 2 k = q"
  proof -
    have "(of_int (m * 2 ^ nat (s - k)) :: rat) = of_int m * power_int 2 (s - k)"
      using ks by (simp add: power_int_def)
    then show ?thesis by (simp add: q_def power_int_diff)
  qed
  have small: "\<not> 1023 < floor_log2 \<bar>q\<bar>" "floor_log2 \<bar>q\<bar> \<noteq> 1023" using e assms(3) by simp_all
  show ?thesis
    unfolding q_def [symmetric] round_double_def Let_def k_def [symmetric]
    using q0 small n restore by simp
qed

lemma round_double_error:
  assumes "\<bar>q\<bar> < 2 ^ 50"
  shows "\<exists>r. round_double q = Finite r \<and> \<bar>r - q\<bar> \<le> 1 / 16"
proof (cases "q = 0")
  case True
  then show ?thesis by (simp add: round_double_def)
next
  case False
  then have pos: "0 < \<bar>q\<bar>" by simp
  have "\<bar>q\<bar> < power_int 2 50" using assms by simp
  with pos have e: "floor_log2 \<bar>q\<bar> < 50" by (rule floor_log2_less)
  define k where "k = max (floor_log2 \<bar>q\<bar>) (- 1022) - 52"
  define u :: rat where "u = power_int 2 k"
  define n where "n = round_half_even (q / u)"
  have "k \<le> - 3" using e by (simp add: k_def)
  then have "u \<le> power_int 2 (- 3)" unfolding u_def by (rule power_int_increasing) simp
  moreover have "(power_int 2 (- 3) :: rat) = 1 / 8" by (simp add: power_int_def power3_eq_cube)
  ultimately have u8: "u \<le> 1 / 8" by simp
  have u0: "0 < u" by (simp add: u_def)
  have "of_int n * u - q = (of_int n - q / u) * u"
    using u0 by (simp add: left_diff_distrib)
  then have "\<bar>of_int n * u - q\<bar> = \<bar>of_int n - q / u\<bar> * u"
    using u0 by (simp add: abs_mult)
  also have "\<dots> \<le> 1 / 2 * u"
    using round_half_even_error [of "q / u"] u0 unfolding n_def
    by (intro mult_right_mono) simp_all
  also have "\<dots> \<le> 1 / 16" using u8 by simp
  finally have err: "\<bar>of_int n * u - q\<bar> \<le> 1 / 16" .
  have small: "\<not> 1023 < floor_log2 \<bar>q\<bar>" "floor_log2 \<bar>q\<bar> \<noteq> 1023" using e by simp_all
  have "round_double q = Finite (of_int n * u)"
    unfolding round_double_def Let_def k_def [symmetric] u_def [symmetric] n_def [symmetric]
    using False small by simp
  with err show ?thesis by blast
qed

lemma round_double_overflow:
  assumes "power_int 2 1024 \<le> q"
  shows "round_double q = PosInf"
proof -
  have "(0::rat) < power_int 2 1024" by simp
  with assms have pos: "0 < q" by linarith
  then have "0 < \<bar>q\<bar>" "power_int 2 1024 \<le> \<bar>q\<bar>" using assms by simp_all
  then have "1024 \<le> floor_log2 \<bar>q\<bar>" by (rule floor_log2_ge)
  then show ?thesis using pos by (simp add: round_double_def Let_def)
qed

lemma float_0_9_nearest: "round_double (9 / 10) = Finite float_0_9"
  by code_simp

lemma float_0_9_bounds: "9 / 10 \<le> float_0_9" "float_0_9 < 1"
  by (simp_all add: float_0_9_def)

subsection \<open>The channel rounder on exactly representable inputs\<close>

lemma float_of_int_exact:
  assumes "\<bar>i\<bar> < 2 ^ 53"
  shows "float_of_int i = Inr (of_int i)"
  using round_double_exact [of i 0] assms by (simp add: float_of_int_def)

lemma true_div_2_exact:
  assumes "\<bar>d\<bar> < 2 ^ 53"
  shows "true_div d 2 = Inr (of_int d / 2)"
  using round_double_exact [of d "- 1"] assms by (simp add: true_div_def field_simps)

lemma add_half_exact:
  assumes "\<bar>v\<bar> < 2 ^ 50" "\<bar>d\<bar> < 2 ^ 50"
  shows "round_double (of_int v + of_int d / 2) = Finite (of_int v + of_int d / 2)"
proof -
  have "\<bar>2 * v + d\<bar> < 2 ^ 53" using assms by simp
  then have "round_double (of_int (2 * v + d) * power_int 2 (- 1))
               = Finite (of_int (2 * v + d) * power_int 2 (- 1))"
    by (rule round_double_exact) simp_all
  moreover have "(of_int (2 * v + d) * power_int 2 (- 1) :: rat) = of_int v + of_int d / 2"
    by (simp add: field_simps)
  ultimately show ?thesis by (simp only:)
qed

lemma times_0_9_error:
  assumes "\<bar>v\<bar> < 2 ^ 50"
  shows "\<exists>r. round_double (float_0_9 * of_int v) = Finite r
             \<and> \<bar>r - float_0_9 * of_int v\<bar> \<le> 1 / 16"
proof -
  have "(of_int \<bar>v\<bar> :: rat) < of_int (2 ^ 50)" using assms by (simp only: of_int_less_iff)
  then have v: "\<bar>of_int v :: rat\<bar> < 2 ^ 50" by simp
  have "\<bar>float_0_9 * of_int v\<bar> = float_0_9 * \<bar>of_int v :: rat\<bar>"
    using float_0_9_bounds by (simp add: abs_mult)
  also have "\<dots> \<le> 1 * \<bar>of_int v :: rat\<bar>"
    using float_0_9_bounds by (intro mult_right_mono) simp_all
  finally have "\<bar>float_0_9 * of_int v\<bar> < 2 ^ 50" using v by simp
  then show ?thesis by (rule round_double_error)
qed

lemma make_divisible_bounded:
  assumes "\<bar>v\<bar> < 2 ^ 50" "\<bar>d\<bar> < 2 ^ 50" "d \<noteq> 0"
  shows "\<exists>r. \<bar>r - float_0_9 * of_int v\<bar> \<le> 1 / 16 \<and>
             make_divisible (PyInt v) d min_value_arg =
               (let new_v = max (case min_value_arg of None \<Rightarrow> d | Some m \<Rightarrow> m)
                                (trunc_toward_zero (of_int v + of_int d / 2) div d * d)
                in Inr (if of_int new_v < r then new_v + d else new_v))"
proof -
  from times_0_9_error [OF assms(1)] obtain r
    where r: "round_double (float_0_9 * of_int v) = Finite r"
             "\<bar>r - float_0_9 * of_int v\<bar> \<le> 1 / 16"
    by blast
  have v53: "\<bar>v\<bar> < 2 ^ 53" and d53: "\<bar>d\<bar> < 2 ^ 53" using assms by simp_all
  have "make_divisible (PyInt v) d min_value_arg =
               (let new_v = max (case min_value_arg of None \<Rightarrow> d | Some m \<Rightarrow> m)
                                (trunc_toward_zero (of_int v + of_int d / 2) div d * d)
                in Inr (if of_int new_v < r then new_v + d else new_v))"
    unfolding make_divisible_def
    using assms(3)
    by (simp add: true_div_2_exact [OF d53] as_double_def float_of_int_exact [OF v53]
          add_half_exact [OF assms(1,2)] r(1) Let_def)
  with r(2) show ?thesis by blast
qed

lemma trunc_toward_zero_positive:
  assumes "0 < v" "0 < d"
  shows "trunc_toward_zero (of_int v + of_int d / 2) = v + d div 2"
proof -
  have "(of_int v + of_int d / 2 :: rat) \<ge> 0" using assms by simp
  then have "trunc_toward_zero (of_int v + of_int d / 2) = \<lfloor>(of_int v + of_int d / 2 :: rat)\<rfloor>"
    by (simp add: trunc_toward_zero_def)
  also have "\<dots> = v + \<lfloor>(of_int d / 2 :: rat)\<rfloor>" by (simp add: floor_add_int add.commute)
  also have "\<lfloor>(of_int d / 2 :: rat)\<rfloor> = d div 2"
    using floor_divide_of_int_eq [of d 2, where ?'a = rat] by simp
  finally show ?thesis .
qed

lemma make_divisible_default_bounded:
  assumes "0 < v" "v < 2 ^ 50" "0 < d" "d < 2 ^ 50"
  shows "\<exists>r. make_divisible (PyInt v) d None = Inr r \<and> 0 < r \<and> d dvd r
             \<and> 9 / 10 * (of_int v :: rat) \<le> of_int r"
proof -
  have bv: "\<bar>v\<bar> < 2 ^ 50" and bd: "\<bar>d\<bar> < 2 ^ 50" and d0: "d \<noteq> 0" using assms by simp_all
  define k where "k = (v + d div 2) div d * d"
  define n where "n = max d k"
  from make_divisible_bounded [OF bv bd d0, of None] obtain p
    where p: "\<bar>p - float_0_9 * of_int v\<bar> \<le> 1 / 16"
      and res: "make_divisible (PyInt v) d None = Inr (if of_int n < p then n + d else n)"
    by (auto simp: trunc_toward_zero_positive [OF assms(1,3)] k_def n_def Let_def)
  have k_dvd: "d dvd k" by (simp add: k_def)
  have "(v + d div 2) mod d < d" using assms by simp
  moreover have "k = (v + d div 2) - (v + d div 2) mod d"
    by (simp add: k_def minus_mod_eq_div_mult)
  ultimately have k_low: "v < k + d" using assms by linarith
  have n_dvd: "d dvd n" using k_dvd by (simp add: n_def max_def)
  have n_pos: "0 < n" using assms by (simp add: n_def)
  show ?thesis
  proof (cases "of_int n < p")
    case True
    have "v < n + d" using k_low by (simp add: n_def)
    then have "(of_int v :: rat) < of_int (n + d)" by (simp only: of_int_less_iff)
    then have "9 / 10 * (of_int v :: rat) \<le> of_int (n + d)" using assms by simp
    moreover have "d dvd n + d" using n_dvd by simp
    moreover have "0 < n + d" using n_pos assms by simp
    ultimately show ?thesis using True res by simp
  next
    case False
    then have "p \<le> of_int n" by simp
    moreover have "float_0_9 * of_int v - 1 / 16 \<le> p" using p by linarith
    moreover have "9 / 10 * (of_int v :: rat) \<le> float_0_9 * of_int v"
      using float_0_9_bounds assms by (intro mult_right_mono) simp_all
    ultimately have "9 / 10 * (of_int v :: rat) - 1 / 16 \<le> of_int n" by linarith
    then have "(of_int (9 * v) :: rat) - 1 < of_int (10 * n)" by simp
    then have "(of_int (9 * v - 1) :: rat) < of_int (10 * n)" by simp
    then have "9 * v - 1 < 10 * n" by (simp only: of_int_less_iff)
    then have "9 * v \<le> 10 * n" by simp
    then have "(of_int (9 * v) :: rat) \<le> of_int (10 * n)" by (simp only: of_int_le_iff)
    then have "9 / 10 * (of_int v :: rat) \<le> of_int n" by simp
    with False n_dvd n_pos res show ?thesis by simp
  qed
qed



lemma float_of_int_overflow: "float_of_int (2 ^ 1024) = Inl OverflowError"
proof -
  have "round_double (of_int (2 ^ 1024)) = PosInf"
    by (rule round_double_overflow) simp
  then show ?thesis by (simp add: float_of_int_def)
qed

lemma true_div_8: "true_div 8 2 = Inr 4"
  using true_div_2_exact [of 8] by simp

lemma make_divisible_overflow: "make_divisible (PyInt (2 ^ 1024)) 8 None = Inl OverflowError"
proof -
  have a: "as_double (PyInt (2 ^ 1024)) = Inl OverflowError"
    unfolding as_double_def number.case float_of_int_overflow by simp
  show ?thesis
    unfolding make_divisible_def a true_div_8 by simp
qed

subsection \<open>Helper facts about construction\<close>

lemma getattr_fresh_stride:
  "getattr Module_init ''stride'' = Inl (AttributeError ''stride'')"
  by (simp add: getattr_def Module_init_def)

lemma InvertedResidual_init_outcomes:
  "InvertedResidual_init i out s t = Inl AssertionError \<or>
   InvertedResidual_init i out s t = Inl (AttributeError ''stride'')"
  by (auto simp: InvertedResidual_init_def getattr_fresh_stride)

lemma float_of_int_no_ValueError: "float_of_int i \<noteq> Inl (ValueError e)"
  by (simp add: float_of_int_def split: double.splits)

lemma true_div_no_ValueError: "true_div a b \<noteq> Inl (ValueError e)"
  by (simp add: true_div_def split: double.splits)

lemma py_int_no_ValueError: "py_int x \<noteq> Inl (ValueError e)"
  by (cases x) simp_all

lemma int_times_float_no_ValueError: "int_times_float i x \<noteq> Inl (ValueError e)"
  by (auto simp: int_times_float_def float_of_int_def split: sum.splits double.splits)

lemma as_double_no_ValueError: "as_double v \<noteq> Inl (ValueError e)"
  by (cases v) (auto simp: as_double_def float_of_int_def split: double.splits)

lemma make_divisible_no_ValueError: "make_divisible v d m \<noteq> Inl (ValueError e)"
  by (auto simp: make_divisible_def Let_def true_div_no_ValueError
        as_double_no_ValueError py_int_no_ValueError
      split: sum.splits)

lemma InvertedResidual_init_no_ValueError:
  "InvertedResidual_init i out s t \<noteq> Inl (ValueError e)"
  using InvertedResidual_init_outcomes [of i out s t] by auto

lemma repeat_blocks_no_ValueError: "repeat_blocks t oc s idx st \<noteq> Inl (ValueError e)"
proof (induction t oc s idx st rule: repeat_blocks.induct)
  case (1 t oc s st)
  show ?case by simp
next
  case (2 t oc s i indices fl ic)
  then show ?case
    by (auto simp: Let_def InvertedResidual_init_no_ValueError split: sum.splits)
qed

lemma stages_no_SettingMessage:
  "stages wm rn setting st \<noteq> Inl (ValueError (SettingMessage m))"
proof (induction setting arbitrary: st)
  case Nil
  show ?case by simp
next
  case (Cons entry rest)
  then show ?case
    by (auto simp: make_divisible_no_ValueError repeat_blocks_no_ValueError
               int_times_float_no_ValueError
             split: list.splits sum.splits)
qed

lemma InvertedResidual_forward_follows_flag:
  "InvertedResidual_forward F
     ([(''use_res_connect'', PBool b)], [(''conv'', conv), (''skip_add'', FloatFunctional)]) x =
     Inr (if b then tensor_add F x (call F conv x) else call F conv x)"
  by (simp add: InvertedResidual_forward_def getattr_def call_attr_def)

lemma stem_channels: "int_times_float 32 1 = Inr (Finite 32)"
  by code_simp

lemma head_channels: "int_times_float 1280 1 = Inr (Finite 1280)"
  by code_simp

lemma first_stage_channels: "int_times_float 16 1 = Inr (Finite 16)"
  by code_simp

lemma make_divisible_stem: "make_divisible (PyFloat (Finite 32)) 8 None = Inr 32"
  by code_simp

lemma make_divisible_head: "make_divisible (PyFloat (Finite 1280)) 8 None = Inr 1280"
  by code_simp

lemma make_divisible_first_stage: "make_divisible (PyFloat (Finite 16)) 8 None = Inr 16"
  by code_simp

subsection \<open>InvertedResidual construction\<close>

text \<open>
  Claim C1. For every valid construction input (any channel counts and expansion ratio,
  stride 1 or 2), \<open>InvertedResidual.__init__\<close> reads \<open>self.stride\<close> when nothing has
  assigned it: construction raises the attribute error for \<open>stride\<close> and yields no block.
\<close>

theorem InvertedResidual_init_reads_unassigned_stride:
  "stride \<in> {1, 2} \<Longrightarrow>
   InvertedResidual_init in_planes out_planes stride expand_ratio
     = Inl (AttributeError ''stride'')"
  by (auto simp: InvertedResidual_init_def getattr_fresh_stride)

theorem InvertedResidual_init_reads_unassigned_stride_witness:
  "(2::int) \<in> {1, 2} \<and> InvertedResidual_init 32 64 2 6 = Inl (AttributeError ''stride'')"
  using InvertedResidual_init_reads_unassigned_stride [of 2 32 64 6] by simp

text \<open>
  Claim C10. For every stride outside \<open>{1, 2}\<close>, \<open>InvertedResidual.__init__\<close> fails its
  assertion, which comes before the read of \<open>self.stride\<close>: the outcome is the assertion
  failure, not the attribute error.
\<close>

theorem InvertedResidual_init_invalid_stride_asserts:
  "stride \<notin> {1, 2} \<Longrightarrow>
   InvertedResidual_init in_planes out_planes stride expand_ratio = Inl AssertionError"
  by (simp add: InvertedResidual_init_def)

theorem InvertedResidual_init_invalid_stride_asserts_witness:
  "(3::int) \<notin> {1, 2} \<and> InvertedResidual_init 32 32 3 6 = Inl AssertionError"
  using InvertedResidual_init_invalid_stride_asserts [of 3 32 32 6] by simp

text \<open>
  Claim C4. The shortcut \<open>x + conv(x)\<close> is to be applied exactly by the blocks constructed
  with stride 1 and equal channel counts. At such an input, \<open>in_planes = out_planes = 16\<close>,
  \<open>stride = 1\<close>, \<open>expand_ratio = 1\<close>, the constructor raises before \<open>use_res_connect\<close> is
  set, so there is no block whose \<open>forward\<close> could add the shortcut.
\<close>

theorem shortcut_block_not_constructible:
  "InvertedResidual_init 16 16 1 1 = Inl (AttributeError ''stride'')"
  by code_simp

subsection \<open>The channel rounder\<close>

text \<open>
  Claim C3, as stated: for every integer \<open>v > 0\<close> and integer \<open>divisor > 0\<close>, with
  \<open>min_value\<close> at its default, \<open>_make_divisible(v, divisor)\<close> returns a positive multiple
  of \<open>divisor\<close> that is at least \<open>0.9 * v\<close>. The function computes in floats, and large
  integers are outside their exact range: for \<open>v = 40 * 2^56 + 1\<close> and
  \<open>divisor = 9 * 2^56\<close> the result \<open>36 * 2^56\<close> is below \<open>0.9 * v\<close>, and for
  \<open>v = 2^1024\<close> the conversion of \<open>v\<close> to a float raises.
\<close>

theorem make_divisible_large_integers:
  "make_divisible (PyInt (40 * 2 ^ 56 + 1)) (9 * 2 ^ 56) None = Inr (36 * 2 ^ 56)
   \<and> (of_int (36 * 2 ^ 56) :: rat) < 9 / 10 * of_int (40 * 2 ^ 56 + 1)
   \<and> make_divisible (PyInt (2 ^ 1024)) 8 None = Inl OverflowError"
proof (intro conjI)
  show "make_divisible (PyInt (40 * 2 ^ 56 + 1)) (9 * 2 ^ 56) None = Inr (36 * 2 ^ 56)"
    by code_simp
  show "(of_int (36 * 2 ^ 56) :: rat) < 9 / 10 * of_int (40 * 2 ^ 56 + 1)"
    by simp
  show "make_divisible (PyInt (2 ^ 1024)) 8 None = Inl OverflowError"
    by (rule make_divisible_overflow)
qed

text \<open>
  Claim C3, amended: for every integer \<open>v\<close> with \<open>0 < v < 2^50\<close> and every integer
  \<open>divisor\<close> with \<open>0 < divisor < 2^50\<close>, with \<open>min_value\<close> left at its default,
  \<open>_make_divisible(v, divisor)\<close> returns a positive multiple of \<open>divisor\<close> that is at
  least \<open>0.9 * v\<close>; in particular \<open>_make_divisible(32, 8)\<close> is 32 and
  \<open>_make_divisible(17, 8)\<close> is 16.
\<close>

theorem make_divisible_default_min_value:
  "(\<forall>v d. 0 < v \<and> v < 2 ^ 50 \<and> 0 < d \<and> d < 2 ^ 50 \<longrightarrow>
      (\<exists>r. make_divisible (PyInt v) d None = Inr r \<and> 0 < r \<and> d dvd r
           \<and> 9 / 10 * (of_int v :: rat) \<le> of_int r))
   \<and> make_divisible (PyInt 32) 8 None = Inr 32
   \<and> make_divisible (PyInt 17) 8 None = Inr 16"
proof (intro conjI allI impI)
  fix v d :: int
  assume "0 < v \<and> v < 2 ^ 50 \<and> 0 < d \<and> d < 2 ^ 50"
  then show "\<exists>r. make_divisible (PyInt v) d None = Inr r \<and> 0 < r \<and> d dvd r
                 \<and> 9 / 10 * (of_int v :: rat) \<le> of_int r"
    using make_divisible_default_bounded [of v d] by blast
next
  show "make_divisible (PyInt 32) 8 None = Inr 32"
    by code_simp
next
  show "make_divisible (PyInt 17) 8 None = Inr 16"
    by code_simp
qed

theorem make_divisible_default_min_value_witness:
  "(0::int) < 100 \<and> (100::int) < 2 ^ 50 \<and> (0::int) < 8 \<and> (8::int) < 2 ^ 50
   \<and> (\<exists>r. make_divisible (PyInt 100) 8 None = Inr r \<and> 0 < r \<and> 8 dvd r
          \<and> 9 / 10 * (of_int 100 :: rat) \<le> of_int r)"
proof -
  have h: "(0::int) < 100 \<and> (100::int) < 2 ^ 50 \<and> (0::int) < 8 \<and> (8::int) < 2 ^ 50" by simp
  from make_divisible_default_min_value
  have "\<forall>v d. 0 < v \<and> v < 2 ^ 50 \<and> 0 < d \<and> d < 2 ^ 50 \<longrightarrow>
      (\<exists>r. make_divisible (PyInt v) d None = Inr r \<and> 0 < r \<and> d dvd r
           \<and> 9 / 10 * (of_int v :: rat) \<le> of_int r)" by (rule conjunct1)
  then have "(0::int) < 100 \<and> (100::int) < 2 ^ 50 \<and> (0::int) < 8 \<and> (8::int) < 2 ^ 50 \<longrightarrow>
      (\<exists>r. make_divisible (PyInt 100) 8 None = Inr r \<and> 0 < r \<and> 8 dvd r
           \<and> 9 / 10 * (of_int 100 :: rat) \<le> of_int r)" by blast
  with h show ?thesis by blast
qed



subsection \<open>Network construction\<close>

text \<open>
  Claim C2, as stated: construction with an explicit setting raises the documented
  \<open>ValueError\<close> whenever some entry, at any position, does not have exactly 4 fields.
  It does not. With a well-formed first entry and the short entry \<open>[6, 24, 2]\<close> behind it,
  the check passes; what follows is the unpacking error of the loop when the first
  entry builds no block, and the attribute error of the first block otherwise.
\<close>

theorem later_short_entry_not_documented_error:
  "MobileNetV2_init 1000 1 (Some [[1, 16, 0, 1], [6, 24, 2]]) 8
     = Inl (ValueError (UnpackMessage 3))
   \<and> MobileNetV2_init 1000 1 (Some [[1, 16, 1, 1], [6, 24, 2]]) 8
     = Inl (AttributeError ''stride'')"
  by code_simp

text \<open>
  Claim C2, amended: construction with an explicit setting raises the documented
  \<open>ValueError\<close> (the one naming the setting) if and only if the setting is empty or its
  first entry does not have exactly 4 fields.
\<close>

theorem setting_check_first_entry_only:
  "(\<exists>m. MobileNetV2_init num_classes width_mult (Some setting) round_nearest
          = Inl (ValueError (SettingMessage m)))
   \<longleftrightarrow> (setting = [] \<or> length (hd setting) \<noteq> 4)"
proof (cases "setting = [] \<or> length (hd setting) \<noteq> 4")
  case True
  then have "length setting = 0 \<or> length (setting ! 0) \<noteq> 4"
    by (cases setting) auto
  then show ?thesis using True by (simp add: MobileNetV2_init_def)
next
  case False
  then have ok: "\<not> (length setting = 0 \<or> length (setting ! 0) \<noteq> 4)"
    by (cases setting) auto
  have "MobileNetV2_init num_classes width_mult (Some setting) round_nearest
          \<noteq> Inl (ValueError (SettingMessage m))" for m
    using ok
    by (auto simp: MobileNetV2_init_def make_divisible_no_ValueError stages_no_SettingMessage
               int_times_float_no_ValueError
             simp del: length_0_conv split: sum.splits)
  with False show ?thesis by blast
qed

theorem setting_check_first_entry_only_witness:
  "(\<exists>m. MobileNetV2_init 1000 1 (Some [[6, 24, 2]]) 8 = Inl (ValueError (SettingMessage m)))
   \<and> (\<nexists>m. MobileNetV2_init 1000 1 (Some [[1, 16, 0, 1], [6, 24, 2]]) 8
            = Inl (ValueError (SettingMessage m)))"
proof -
  have "[[6, 24, 2]] = [] \<or> length (hd [[6, 24, 2 :: int]]) \<noteq> 4" by simp
  with setting_check_first_entry_only [of 1000 1 "[[6, 24, 2]]" 8]
  have 1: "\<exists>m. MobileNetV2_init 1000 1 (Some [[6, 24, 2]]) 8
                 = Inl (ValueError (SettingMessage m))" by blast
  have "\<not> ([[1, 16, 0, 1], [6, 24, 2]] = [] \<or> length (hd [[1, 16, 0, 1], [6, 24, 2 :: int]]) \<noteq> 4)"
    by simp
  with setting_check_first_entry_only [of 1000 1 "[[1, 16, 0, 1], [6, 24, 2]]" 8]
  have 2: "\<nexists>m. MobileNetV2_init 1000 1 (Some [[1, 16, 0, 1], [6, 24, 2]]) 8
                 = Inl (ValueError (SettingMessage m))" by blast
  from 1 2 show ?thesis by blast
qed

text \<open>
  Claim C6. With the default setting the features sequence is to hold 17
  \<open>InvertedResidual\<close> blocks between the stem and the head \<open>ConvBnReLU\<close>. Construction
  with all arguments at their defaults raises the attribute error of the first block
  instead, and no features sequence exists.
\<close>

theorem default_network_not_constructible:
  "MobileNetV2_init 1000 1 None 8 = Inl (AttributeError ''stride'')"
  by code_simp

text \<open>
  Claim C7. A schedule entry \<open>(t, c, n, s)\<close> is to produce \<open>n\<close> blocks, the first of stride
  \<open>s\<close> and the others of stride 1, chained by their channel counts. For the entry
  \<open>(6, 24, 2, 2)\<close> after a stem of 32 channels, the inner loop and with it the loop over
  the schedule stop at the first block with the attribute error: no block is created.
\<close>

theorem schedule_entry_builds_no_block:
  "repeat_blocks 6 24 2 [0..<nat 2] ([ConvBnReLU_init 3 32 3 2 1], 32)
     = Inl (AttributeError ''stride'')
   \<and> stages 1 8 [[6, 24, 2, 2]] ([ConvBnReLU_init 3 32 3 2 1], 32)
     = Inl (AttributeError ''stride'')"
  by code_simp

subsection \<open>The forward pass\<close>

text \<open>
  Claim C5, as stated: the spatial mean over the dimensions \<open>[2, 3]\<close> executes outside the
  bracket from \<open>quant\<close> to \<open>dequant\<close>, in real-valued arithmetic whatever the
  quantization mode. On the network built from the schedule \<open>[[1, 16, 0, 1]]\<close>, run in a
  converted model on a real-valued input, the mean is a step inside the bracket and
  receives the quantized tensor.
\<close>

theorem mean_inside_quant_bracket:
  "inside_bracket
     (map fst (snd (MobileNetV2_forward converted_mode
        (projr (MobileNetV2_init 1000 1 (Some [[1, 16, 0, 1]]) 8)) RealValued)))
     (Mean [2, 3])
   \<and> (Mean [2, 3], Quantized) \<in> set (snd (MobileNetV2_forward converted_mode
        (projr (MobileNetV2_init 1000 1 (Some [[1, 16, 0, 1]]) 8)) RealValued))"
  by code_simp

text \<open>
  Claim C5, amended: \<open>MobileNetV2.forward\<close> runs \<open>quant\<close>, the features trunk, the mean
  over the dimensions \<open>[2, 3]\<close>, the classifier and \<open>dequant\<close>, in this order: \<open>quant\<close> is
  the first step and \<open>dequant\<close> the last, and the mean executes between them.
\<close>

theorem forward_steps_in_order:
  "map fst (snd (MobileNetV2_forward F self x)) =
     [Call (quant self), Call (features self), Mean [2, 3],
      Call (classifier self), Call (dequant self)]
   \<and> fst (MobileNetV2_forward F self x) =
       call F (dequant self) (call F (classifier self)
         (tensor_mean F [2, 3] (call F (features self) (call F (quant self) x))))"
  by (simp add: MobileNetV2_forward_def apply_module_def apply_mean_def)

text \<open>
  Claim C8. \<open>forward\<close> is to map a batch of shape \<open>(N, 3, 224, 224)\<close> to shape
  \<open>(N, num_classes)\<close>. For every \<open>num_classes\<close>, the network with the default schedule,
  width multiplier and rounding divisor cannot be constructed, so there is no network
  to apply \<open>forward\<close> to.
\<close>

theorem forward_unreachable_for_default_schedule:
  "MobileNetV2_init num_classes 1 None 8 = Inl (AttributeError ''stride'')"
  by (simp add: MobileNetV2_init_def default_setting_def stem_channels head_channels
        first_stage_channels make_divisible_stem make_divisible_head make_divisible_first_stage
        InvertedResidual_init_def getattr_fresh_stride Let_def)

end

